theory Spec2Isabelle
  imports Main "HOL-Library.Sublist"
begin

section \<open>Python strings\<close>

text \<open>
  A Python string is modelled as a \<open>string\<close> whose characters are the code points
  0 to 255 (Latin-1). The three string operations that \<open>retrieve_context\<close> uses are
  \<open>str.split()\<close> without arguments, \<open>str.lower()\<close> and the substring test \<open>in\<close>.
\<close>

definition is_space :: "char \<Rightarrow> bool" where
  \<comment> \<open>\<open>str.isspace\<close> on the code points below 256\<close>
  "is_space c =
     (let n = (of_char c :: nat)
      in (9 \<le> n \<and> n \<le> 13) \<or> (28 \<le> n \<and> n \<le> 32) \<or> n = 133 \<or> n = 160)"

definition lower_char :: "char \<Rightarrow> char" where
  \<comment> \<open>\<open>A\<close> to \<open>Z\<close>, and the Latin-1 capitals 0xC0 to 0xDE without the sign 0xD7\<close>
  "lower_char c =
     (let n = (of_char c :: nat)
      in if (65 \<le> n \<and> n \<le> 90) \<or> (192 \<le> n \<and> n \<le> 222 \<and> n \<noteq> 215)
         then char_of (n + 32) else c)"

definition lower :: "string \<Rightarrow> string" where
  "lower s = map lower_char s"

text \<open>
  \<open>s.split()\<close>: runs of whitespace separate the tokens, and no token is empty.
  \<open>split_acc cur s\<close> scans \<open>s\<close> with the token read so far in \<open>cur\<close>.
\<close>

fun split_acc :: "string \<Rightarrow> string \<Rightarrow> string list" where
  "split_acc cur [] = (if cur = [] then [] else [cur])"
| "split_acc cur (c # cs) =
     (if is_space c
      then (if cur = [] then split_acc [] cs else cur # split_acc [] cs)
      else split_acc (cur @ [c]) cs)"

definition split :: "string \<Rightarrow> string list" where
  "split s = split_acc [] s"

text \<open>\<open>sub in s\<close>: \<open>sub\<close> occurs in \<open>s\<close> as a contiguous block.\<close>

fun py_in :: "string \<Rightarrow> string \<Rightarrow> bool" where
  "py_in sub [] = (sub = [])"
| "py_in sub (c # cs) = (prefix sub (c # cs) \<or> py_in sub cs)"

text \<open>\<open>sep.join(xs)\<close>\<close>

fun join :: "string \<Rightarrow> string list \<Rightarrow> string" where
  "join sep [] = []"
| "join sep [x] = x"
| "join sep (x # y # ys) = x @ sep @ join sep (y # ys)"

section \<open>The retrieval step of \<open>rag_agent\<close>\<close>

text \<open>
  \<^verbatim>\<open>
  def retrieve_context(query, kb):
      relevant_docs = [doc for doc in kb if any(
          keyword.lower() in doc.lower()
          for keyword in query.split()
      )]
      return "\n\n".join(relevant_docs[:3])
  \<close>
\<close>

definition relevant :: "string \<Rightarrow> string \<Rightarrow> bool" where
  "relevant query doc = list_ex (\<lambda>keyword. py_in (lower keyword) (lower doc)) (split query)"

definition relevant_docs :: "string \<Rightarrow> string list \<Rightarrow> string list" where
  "relevant_docs query kb = filter (relevant query) kb"

definition selected :: "string \<Rightarrow> string list \<Rightarrow> string list" where
  \<comment> \<open>\<open>relevant_docs[:3]\<close>\<close>
  "selected query kb = take 3 (relevant_docs query kb)"

definition retrieve_context :: "string \<Rightarrow> string list \<Rightarrow> string" where
  "retrieve_context query kb = join [CHR 0x0A, CHR 0x0A] (selected query kb)"

definition kb :: "string list" where
  "kb = [''Our company was founded in 2020.'',
         ''We offer cloud services and AI solutions.'',
         ''Our headquarters is in San Francisco.'']"

text \<open>
  The wording of the specification: a token of the query is a case-insensitive substring
  of a document when the lower-cased token occurs somewhere in the lower-cased document.
\<close>

definition ci_substring :: "string \<Rightarrow> string \<Rightarrow> bool" where
  "ci_substring tok doc = (\<exists>pre suf. lower doc = pre @ lower tok @ suf)"

definition matches :: "string \<Rightarrow> string \<Rightarrow> bool" where
  "matches query doc = (\<exists>tok \<in> set (split query). ci_substring tok doc)"

section \<open>Python values and errors\<close>

text \<open>
  An exception that leaves a function is a value \<open>Inl e\<close> of its result; a returned
  value is \<open>Inr v\<close>.
\<close>

datatype py_error =
  IndexError | AttributeError | KeyError | TypeError | SyntaxError | ZeroDivisionError
  | ValueError | OtherException string

text \<open>
  The values that reach the tools: the JSON values of a tool input, and the results of
  \<open>eval\<close>. A value of another type (a floating point number, a list, an object) is
  given by what \<open>str\<close> does on it: the string it returns or the exception it raises.
\<close>

datatype pyval = PNone | PBool bool | PInt int | PStr string | PObject "py_error + string"

text \<open>
  What a call that runs \<open>eval\<close> can do. It returns a value, or it raises an exception,
  in both cases as a function of its argument alone and with the state of the program
  untouched. Everything else is \<open>Escapes\<close>: the call reads or changes the state of the
  program or of its environment (\<open>eval\<close> runs in the globals of the module, where it can
  rebind \<open>client\<close>), it does not return, it ends the process, or its value is an object
  whose conversion to a string does one of these. Once a call has escaped, the model says
  nothing about the rest of the run.
\<close>

datatype 'a outcome = Returns 'a | Raises py_error | Escapes

fun outcome_of :: "py_error + 'a \<Rightarrow> 'a outcome" where
  "outcome_of (Inl e) = Raises e"
| "outcome_of (Inr v) = Returns v"

text \<open>
  The interpreter is outside the repository and a parameter of the model: what \<open>eval\<close>
  does on an expression, and the limit on the number of digits in a conversion between
  an integer and a decimal string (\<open>sys.get_int_max_str_digits()\<close>: 4300 by default,
  0 for no limit).
\<close>

record interpreter =
  evaluate :: "string \<Rightarrow> pyval outcome"
  max_str_digits :: nat

fun digits :: "nat \<Rightarrow> string" where
  "digits n =
     (if n < 10 then [char_of (48 + n)] else digits (n div 10) @ [char_of (48 + n mod 10)])"

declare digits.simps [simp del]

definition str_int :: "int \<Rightarrow> string" where
  "str_int i = (if i < 0 then CHR ''-'' # digits (nat (- i)) else digits (nat i))"

text \<open>
  \<open>str(v)\<close>, which is also what an f-string writes for \<open>{v}\<close>: on an integer with more
  digits than the limit it raises \<open>ValueError\<close>.
\<close>

fun py_str :: "interpreter \<Rightarrow> pyval \<Rightarrow> py_error + string" where
  "py_str py PNone = Inr ''None''"
| "py_str py (PBool b) = Inr (if b then ''True'' else ''False'')"
| "py_str py (PInt i) =
     (if max_str_digits py \<noteq> 0 \<and> max_str_digits py < length (digits (nat \<bar>i\<bar>))
      then Inl ValueError else Inr (str_int i))"
| "py_str py (PStr s) = Inr s"
| "py_str py (PObject r) = r"

section \<open>Responses and conversation histories\<close>

text \<open>
  A content block of a response: a text block (the only kind with a \<open>text\<close> field), a
  tool-use block with its \<open>id\<close>, \<open>name\<close> and \<open>input\<close> (a dictionary, as the list
  of its items), and a thinking block, which has neither a \<open>text\<close> field nor the type
  \<open>tool_use\<close>.
\<close>

datatype block =
    TextBlock string
  | ToolUseBlock string string "(string \<times> pyval) list"
  | ThinkingBlock string

fun block_type :: "block \<Rightarrow> string" where
  "block_type (TextBlock t) = ''text''"
| "block_type (ToolUseBlock i n inp) = ''tool_use''"
| "block_type (ThinkingBlock t) = ''thinking''"

record response =
  stop_reason :: string
  content :: "block list"

text \<open>The dictionary \<open>{"type": "tool_result", "tool_use_id": ..., "content": ...}\<close>\<close>

record tool_result =
  tr_type :: string
  tool_use_id :: string
  tr_content :: string

text \<open>
  A turn \<open>{"role": ..., "content": ...}\<close>: its content is a string, the content blocks
  of a response, or a list of tool results.
\<close>

datatype message_content = Text string | Blocks "block list" | ToolResults "tool_result list"

record message =
  role :: string
  msg_content :: message_content

text \<open>
  The API client is outside the repository. A run of an agent is determined by the
  responses that \<open>client.messages.create\<close> returns, so an agent takes the sequence of
  these responses (\<open>client k\<close> answers the request number \<open>k\<close>, counted from 0) and
  returns, besides its result, the list of the \<open>messages\<close> arguments of the requests it
  has issued. The model name, the token limit and the tool schemas are the same in every
  request of a call site and are left out.
\<close>

type_synonym client = "nat \<Rightarrow> response"

text \<open>\<open>response.content[0].text\<close>\<close>

fun content0_text :: "block list \<Rightarrow> py_error + string" where
  "content0_text [] = Inl IndexError"
| "content0_text (TextBlock t # bs) = Inr t"
| "content0_text (b # bs) = Inl AttributeError"

section \<open>\<open>basic_agent\<close>\<close>

text \<open>
  \<^verbatim>\<open>
  def basic_agent(user_message, conversation_history=None):
      if conversation_history is None:
          conversation_history = []
      conversation_history.append({"role": "user", "content": user_message})
      response = client.messages.create(..., messages=conversation_history)
      assistant_message = response.content[0].text
      conversation_history.append({"role": "assistant", "content": assistant_message})
      return assistant_message, conversation_history
  \<close>
  The first argument of the model is the response to the one request of the call.
\<close>

definition basic_agent ::
  "response \<Rightarrow> string \<Rightarrow> message list option \<Rightarrow> py_error + (string \<times> message list)" where
  "basic_agent resp user_message conversation_history =
     (let history = (case conversation_history of None \<Rightarrow> [] | Some h \<Rightarrow> h);
          history1 = history @ [\<lparr>role = ''user'', msg_content = Text user_message\<rparr>]
      in case content0_text (content resp) of
           Inl e \<Rightarrow> Inl e
         | Inr assistant_message \<Rightarrow>
             Inr (assistant_message,
                  history1 @ [\<lparr>role = ''assistant'', msg_content = Text assistant_message\<rparr>]))"

section \<open>\<open>tool_using_agent\<close>\<close>

text \<open>
  \<open>get_weather(location)\<close>: the f-string writes \<open>str(location)\<close>, and raises when that
  conversion does.
\<close>

definition get_weather :: "interpreter \<Rightarrow> pyval \<Rightarrow> string outcome" where
  "get_weather py location =
     (case py_str py location of
        Inl e \<Rightarrow> Raises e
      | Inr s \<Rightarrow>
          Returns (''The weather in '' @ s @ '' is sunny, 72'' @ [CHR 0xC2, CHR 0xB0] @ ''F''))"

text \<open>
  \<^verbatim>\<open>
  def calculator(expression):
      try:
          return str(eval(expression))
      except:
          return "Invalid expression"
  \<close>
  On an argument that is not a string \<open>eval\<close> raises \<open>TypeError\<close>. The \<open>try\<close> holds
  both calls, so an exception of \<open>eval\<close> and an exception of \<open>str\<close> end in the same
  string. An evaluation that escapes is not an exception: nothing catches it.
\<close>

definition py_eval :: "interpreter \<Rightarrow> pyval \<Rightarrow> pyval outcome" where
  "py_eval py expression =
     (case expression of PStr s \<Rightarrow> evaluate py s | _ \<Rightarrow> Raises TypeError)"

definition calculator :: "interpreter \<Rightarrow> pyval \<Rightarrow> string outcome" where
  "calculator py expression =
     (case py_eval py expression of
        Returns v \<Rightarrow>
          (case py_str py v of
             Inr s \<Rightarrow> Returns s
           | Inl e \<Rightarrow> Returns ''Invalid expression'')
      | Raises e \<Rightarrow> Returns ''Invalid expression''
      | Escapes \<Rightarrow> Escapes)"

text \<open>
  \<open>f(**tool_input)\<close> for a function \<open>f\<close> of the one parameter \<open>param\<close>: the keys of
  the dictionary must be exactly \<open>param\<close>, otherwise the call raises \<open>TypeError\<close>.
\<close>

definition call_kw ::
  "string \<Rightarrow> (pyval \<Rightarrow> string outcome) \<Rightarrow> (string \<times> pyval) list \<Rightarrow> string outcome" where
  "call_kw param f tool_input =
     (if set (map fst tool_input) = {param}
      then (case map_of tool_input param of Some v \<Rightarrow> f v | None \<Rightarrow> Raises TypeError)
      else Raises TypeError)"

text \<open>The dictionary \<open>tool_functions\<close>, and \<open>tool_functions[tool_name](**tool_input)\<close>\<close>

definition tool_functions ::
  "interpreter \<Rightarrow> string \<Rightarrow> ((string \<times> pyval) list \<Rightarrow> string outcome) option" where
  "tool_functions py =
     [''get_weather'' \<mapsto> call_kw ''location'' (get_weather py),
      ''calculator'' \<mapsto> call_kw ''expression'' (calculator py)]"

definition call_tool :: "interpreter \<Rightarrow> string \<Rightarrow> (string \<times> pyval) list \<Rightarrow> string outcome" where
  "call_tool py tool_name tool_input =
     (case tool_functions py tool_name of
        None \<Rightarrow> Raises KeyError
      | Some f \<Rightarrow> f tool_input)"

text \<open>
  The \<open>for block in response.content\<close> loop, with \<open>tool_results\<close> as accumulator: a
  tool call that raises or escapes ends it.
\<close>

fun run_tools ::
  "interpreter \<Rightarrow> block list \<Rightarrow> tool_result list \<Rightarrow> tool_result list outcome" where
  "run_tools py [] tool_results = Returns tool_results"
| "run_tools py (ToolUseBlock i tool_name tool_input # bs) tool_results =
     (case call_tool py tool_name tool_input of
        Raises e \<Rightarrow> Raises e
      | Escapes \<Rightarrow> Escapes
      | Returns result \<Rightarrow>
          run_tools py bs
            (tool_results
             @ [\<lparr>tr_type = ''tool_result'', tool_use_id = i, tr_content = result\<rparr>]))"
| "run_tools py (b # bs) tool_results = run_tools py bs tool_results"

text \<open>
  The \<open>while True\<close> loop. It may run forever, so it is a partial function: \<open>None\<close> when
  the loop does not end, otherwise the text returned, the exception raised or the escape
  of a tool call, together with the requests issued until then.
\<close>

partial_function (option) tool_loop ::
  "interpreter \<Rightarrow> client \<Rightarrow> message list list \<Rightarrow> message list
     \<Rightarrow> (string outcome \<times> message list list) option" where
  "tool_loop py client requests messages =
     (let resp = client (length requests);
          requests1 = requests @ [messages]
      in if stop_reason resp = ''tool_use''
         then (case run_tools py (content resp) [] of
                 Raises e \<Rightarrow> Some (Raises e, requests1)
               | Escapes \<Rightarrow> Some (Escapes, requests1)
               | Returns tool_results \<Rightarrow>
                   tool_loop py client requests1
                     (messages
                      @ [\<lparr>role = ''assistant'', msg_content = Blocks (content resp)\<rparr>,
                         \<lparr>role = ''user'', msg_content = ToolResults tool_results\<rparr>]))
         else Some (outcome_of (content0_text (content resp)), requests1))"

declare tool_loop.simps [code]

text \<open>The value of \<open>messages\<close> before the loop\<close>

definition initial_messages :: "message list" where
  "initial_messages =
     [\<lparr>role = ''user'',
       msg_content = Text ''What's the weather in Paris and what's 15 * 23?''\<rparr>]"

definition tool_using_agent ::
  "interpreter \<Rightarrow> client \<Rightarrow> (string outcome \<times> message list list) option" where
  "tool_using_agent py client = tool_loop py client [] initial_messages"

section \<open>\<open>AutonomousAgent.execute_task\<close>\<close>

text \<open>
  \<open>next((block.text for block in response.content if hasattr(block, 'text')), None)\<close>
\<close>

fun next_text :: "block list \<Rightarrow> string option" where
  "next_text [] = None"
| "next_text (TextBlock t # bs) = Some t"
| "next_text (b # bs) = next_text bs"

text \<open>The mocked tool execution: one result for every tool-use block.\<close>

fun mock_results :: "block list \<Rightarrow> tool_result list" where
  "mock_results [] = []"
| "mock_results (ToolUseBlock i tool_name tool_input # bs) =
     \<lparr>tr_type = ''tool_result'', tool_use_id = i,
      tr_content = ''Tool '' @ tool_name @ '' executed successfully''\<rparr> # mock_results bs"
| "mock_results (b # bs) = mock_results bs"

text \<open>
  What a call of \<open>execute_task\<close> leaves: the value returned (a string or \<open>None\<close>),
  \<open>self.conversation_history\<close> at the end, and the requests issued.
\<close>

record run =
  returned :: "string option"
  final_history :: "message list"
  issued :: "message list list"

text \<open>
  The \<open>for iteration in range(max_iterations)\<close> loop, with the number of iterations
  that are left, the requests issued so far and \<open>self.conversation_history\<close>.
\<close>

fun task_loop :: "client \<Rightarrow> nat \<Rightarrow> message list list \<Rightarrow> message list \<Rightarrow> run" where
  "task_loop client 0 requests history =
     \<lparr>returned = Some ''Max iterations reached'', final_history = history, issued = requests\<rparr>"
| "task_loop client (Suc n) requests history =
     (let resp = client (length requests);
          requests1 = requests @ [history]
      in if stop_reason resp = ''end_turn''
         then \<lparr>returned = next_text (content resp), final_history = history,
               issued = requests1\<rparr>
         else if stop_reason resp = ''tool_use''
         then task_loop client n requests1
                (history
                 @ [\<lparr>role = ''assistant'', msg_content = Blocks (content resp)\<rparr>,
                    \<lparr>role = ''user'', msg_content = ToolResults (mock_results (content resp))\<rparr>])
         else task_loop client n requests1 history)"

definition task_prompt :: "string \<Rightarrow> string" where
  "task_prompt task =
     ''Complete this task: '' @ task @ [CHR 0x0A] @ ''            '' @ [CHR 0x0A]
     @ ''You can use available tools. Think step by step and use tools as needed.''"

text \<open>\<open>range(max_iterations)\<close> is empty for a negative \<open>max_iterations\<close>.\<close>

definition execute_task :: "client \<Rightarrow> string \<Rightarrow> int \<Rightarrow> run" where
  "execute_task client task max_iterations =
     task_loop client (nat max_iterations) []
       [\<lparr>role = ''user'', msg_content = Text (task_prompt task)\<rparr>]"

text \<open>
  The wording of the specification for the value returned at an end of turn: the text of
  the first content block that carries a text field, and \<open>None\<close> when there is none.
\<close>

fun has_text :: "block \<Rightarrow> bool" where
  "has_text (TextBlock t) = True"
| "has_text b = False"

fun block_text :: "block \<Rightarrow> string option" where
  "block_text (TextBlock t) = Some t"
| "block_text b = None"

definition first_text_bearing :: "block list \<Rightarrow> string option" where
  "first_text_bearing bs = Option.bind (find has_text bs) block_text"

section \<open>Tool requests that return\<close>

text \<open>
  A tool-use block is well formed when its tool call returns a result: it names one of
  the two tools of \<open>tool_functions\<close>, its input has exactly the one key that the tool
  takes, the location of \<open>get_weather\<close> converts to a string, and the evaluation of the
  expression of \<open>calculator\<close> does not escape. The identifiers of the tool-use blocks of
  a response, in their order.
\<close>

fun tool_call_ok :: "interpreter \<Rightarrow> block \<Rightarrow> bool" where
  "tool_call_ok py (ToolUseBlock i tool_name tool_input) =
     ((tool_name = ''get_weather'' \<and> set (map fst tool_input) = {''location''}
        \<and> (case map_of tool_input ''location'' of
              Some v \<Rightarrow> (case py_str py v of Inr s \<Rightarrow> True | Inl e \<Rightarrow> False)
            | None \<Rightarrow> False))
      \<or> (tool_name = ''calculator'' \<and> set (map fst tool_input) = {''expression''}
        \<and> (case map_of tool_input ''expression'' of
              Some v \<Rightarrow> py_eval py v \<noteq> Escapes
            | None \<Rightarrow> False)))"
| "tool_call_ok py b = True"

definition well_formed :: "interpreter \<Rightarrow> response \<Rightarrow> bool" where
  "well_formed py resp = list_all (tool_call_ok py) (content resp)"

fun tool_use_ids :: "block list \<Rightarrow> string list" where
  "tool_use_ids [] = []"
| "tool_use_ids (ToolUseBlock i tool_name tool_input # bs) = i # tool_use_ids bs"
| "tool_use_ids (b # bs) = tool_use_ids bs"

section \<open>A sample interpreter\<close>

text \<open>
  What an interpreter with the default limit of 4300 digits does on three expressions:
  a product, a power whose value has 4301 digits, and a product without its second
  factor. The sample is used on these three expressions only: its answer on any other
  one stands for no interpreter.
\<close>

definition sample_interpreter :: interpreter where
  "sample_interpreter =
     \<lparr>evaluate = (\<lambda>s. if s = ''15 * 23'' then Returns (PInt (15 * 23))
                       else if s = ''10 ** 4300'' then Returns (PInt (10 ^ 4300))
                       else if s = ''15 *'' then Raises SyntaxError
                       else Escapes),
      max_str_digits = 4300\<rparr>"

section \<open>Sample response sequences\<close>

text \<open>
  A model that asks for both tools of \<open>tool_using_agent\<close> once and then answers; a
  model that thinks before it answers; a model that asks for a tool forever; a model
  that stops for a tool forever and asks for none.
\<close>

definition sample_client :: client where
  "sample_client k =
     (if k = 0
      then \<lparr>stop_reason = ''tool_use'',
            content = [TextBlock ''Let me check.'',
                       ToolUseBlock ''toolu_1'' ''get_weather'' [(''location'', PStr ''Paris'')],
                       ToolUseBlock ''toolu_2'' ''calculator''
                         [(''expression'', PStr ''15 * 23'')]]\<rparr>
      else \<lparr>stop_reason = ''end_turn'', content = [TextBlock ''Sunny, and 345.'']\<rparr>)"

definition thinking_client :: client where
  "thinking_client k =
     (if k = 0
      then \<lparr>stop_reason = ''max_tokens'', content = [TextBlock ''I will''] \<rparr>
      else \<lparr>stop_reason = ''end_turn'',
            content = [ThinkingBlock ''hm'', TextBlock ''done'', TextBlock ''really'']\<rparr>)"

text \<open>A model that asks for a tool the agent does not have; a model that answers nothing.\<close>

definition rogue_client :: client where
  "rogue_client k =
     \<lparr>stop_reason = ''tool_use'',
      content = [ToolUseBlock ''toolu_1'' ''search_web'' [(''query'', PStr ''weather'')]]\<rparr>"

definition empty_client :: client where
  "empty_client k = \<lparr>stop_reason = ''end_turn'', content = []\<rparr>"

definition busy_client :: client where
  "busy_client k =
     \<lparr>stop_reason = ''tool_use'',
      content = [ToolUseBlock ''toolu_1'' ''calculator'' [(''expression'', PStr ''1 + 1'')]]\<rparr>"

definition idle_client :: client where
  "idle_client k = \<lparr>stop_reason = ''tool_use'', content = [TextBlock ''One moment.'']\<rparr>"

section \<open>Properties of the string operations\<close>

lemma py_in_iff: "py_in sub s \<longleftrightarrow> (\<exists>pre suf. s = pre @ sub @ suf)"
proof (induction s)
  case Nil
  then show ?case by simp
next
  case (Cons c cs)
  show ?case
  proof
    assume "py_in sub (c # cs)"
    then consider "prefix sub (c # cs)" | "py_in sub cs" by auto
    then show "\<exists>pre suf. c # cs = pre @ sub @ suf"
    proof cases
      case 1
      then obtain suf where "c # cs = sub @ suf" by (auto simp: prefix_def)
      then have "c # cs = [] @ sub @ suf" by simp
      then show ?thesis by blast
    next
      case 2
      with Cons obtain pre suf where "cs = pre @ sub @ suf" by blast
      then have "c # cs = (c # pre) @ sub @ suf" by simp
      then show ?thesis by blast
    qed
  next
    assume "\<exists>pre suf. c # cs = pre @ sub @ suf"
    then obtain pre suf where eq: "c # cs = pre @ sub @ suf" by blast
    show "py_in sub (c # cs)"
    proof (cases pre)
      case Nil
      with eq have "prefix sub (c # cs)" by (simp add: prefix_def)
      then show ?thesis by simp
    next
      case (Cons p ps)
      with eq have "cs = ps @ sub @ suf" by simp
      with Cons.IH have "py_in sub cs" by blast
      then show ?thesis by simp
    qed
  qed
qed

lemma relevant_iff_matches: "relevant query doc \<longleftrightarrow> matches query doc"
  by (simp add: relevant_def matches_def ci_substring_def py_in_iff list_ex_iff)

lemma split_acc_spaces: "\<forall>c \<in> set s. is_space c \<Longrightarrow> split_acc [] s = []"
  by (induction s) auto

lemma split_spaces: "\<forall>c \<in> set s. is_space c \<Longrightarrow> split s = []"
  by (simp add: split_def split_acc_spaces)

text \<open>
  What \<open>split\<close> computes: a non-empty string without whitespace is its own single
  token, a whitespace character separates the tokens before it from those after it, and
  no token is empty or contains whitespace.
\<close>

lemma split_acc_token:
  "\<forall>c \<in> set t. \<not> is_space c \<Longrightarrow> cur @ t \<noteq> [] \<Longrightarrow> split_acc cur t = [cur @ t]"
  by (induction t arbitrary: cur) auto

lemma split_token: "t \<noteq> [] \<Longrightarrow> \<forall>c \<in> set t. \<not> is_space c \<Longrightarrow> split t = [t]"
  using split_acc_token [of t "[]"] by (simp add: split_def)

lemma split_acc_space:
  "is_space c \<Longrightarrow> split_acc cur (a @ c # b) = split_acc cur a @ split b"
  by (induction a arbitrary: cur) (auto simp: split_def)

lemma split_space: "is_space c \<Longrightarrow> split (a @ c # b) = split a @ split b"
  by (simp add: split_def split_acc_space [of c "[]" a b, unfolded split_def])

lemma split_acc_tokens:
  "\<forall>c \<in> set cur. \<not> is_space c \<Longrightarrow>
     \<forall>t \<in> set (split_acc cur s). t \<noteq> [] \<and> (\<forall>c \<in> set t. \<not> is_space c)"
proof (induction s arbitrary: cur)
  case Nil
  then show ?case by simp
next
  case (Cons a s)
  have e: "\<forall>t \<in> set (split_acc [] s). t \<noteq> [] \<and> (\<forall>c \<in> set t. \<not> is_space c)"
    using Cons.IH [of "[]"] by simp
  show ?case
  proof (cases "is_space a")
    case True
    with e Cons.prems show ?thesis by simp
  next
    case False
    with Cons.prems have "\<forall>c \<in> set (cur @ [a]). \<not> is_space c" by simp
    from Cons.IH [OF this] False show ?thesis by simp
  qed
qed

lemma split_tokens: "t \<in> set (split s) \<Longrightarrow> t \<noteq> [] \<and> (\<forall>c \<in> set t. \<not> is_space c)"
  using split_acc_tokens [of "[]" s] by (simp add: split_def)

lemma relevant_docs_matches: "relevant_docs query docs = filter (matches query) docs"
  by (simp add: relevant_docs_def relevant_iff_matches [abs_def])

lemma selected_matches: "selected query docs = take 3 (filter (matches query) docs)"
  by (simp add: selected_def relevant_docs_matches)

section \<open>Retrieval: the claims\<close>

text \<open>
  C1 (as stated): the retrieval step selects at most three documents, and a document is
  selected if and only if some whitespace-delimited token of the query is a
  case-insensitive substring of it. This fails when more than three documents match:
  with the query \<open>a\<close> and the four documents \<open>a1\<close>, \<open>a2\<close>, \<open>a3\<close>, \<open>a4\<close>, the
  fourth document matches and is cut off by \<open>relevant_docs[:3]\<close>.
\<close>

theorem retrieve_iff_counterexample:
  "matches ''a'' ''a4'' \<and> ''a4'' \<in> set [''a1'', ''a2'', ''a3'', ''a4'']
   \<and> ''a4'' \<notin> set (selected ''a'' [''a1'', ''a2'', ''a3'', ''a4''])"
proof -
  have "relevant ''a'' ''a4''" by code_simp
  then have m: "matches ''a'' ''a4''" by (simp only: relevant_iff_matches)
  have "selected ''a'' [''a1'', ''a2'', ''a3'', ''a4''] = [''a1'', ''a2'', ''a3'']"
    by code_simp
  with m show ?thesis by simp
qed

text \<open>
  C1 (amended): the retrieval step selects at most three documents: the first three
  documents of the knowledge base, in its order, that have a whitespace-delimited token
  of the query as a case-insensitive substring. So every selected document is a document
  of the knowledge base that has such a token, and when at most three documents of the
  knowledge base have one, a document of the knowledge base is selected if and only if
  it has one.
\<close>

theorem retrieve_selects_first_three:
  "length (selected query docs) \<le> 3
   \<and> selected query docs = take 3 (filter (matches query) docs)
   \<and> (\<forall>doc \<in> set (selected query docs). doc \<in> set docs \<and> matches query doc)
   \<and> (length (filter (matches query) docs) \<le> 3 \<longrightarrow>
        (\<forall>doc \<in> set docs. doc \<in> set (selected query docs) \<longleftrightarrow> matches query doc))"
proof -
  have a: "length (selected query docs) \<le> 3"
    by (simp add: selected_def)
  have b: "selected query docs = take 3 (filter (matches query) docs)"
    by (rule selected_matches)
  have "set (selected query docs) \<subseteq> set (filter (matches query) docs)"
    unfolding b by (rule set_take_subset)
  then have c: "\<forall>doc \<in> set (selected query docs). doc \<in> set docs \<and> matches query doc"
    by auto
  have d: "\<forall>doc \<in> set docs. doc \<in> set (selected query docs) \<longleftrightarrow> matches query doc"
    if "length (filter (matches query) docs) \<le> 3"
  proof -
    from that have "selected query docs = filter (matches query) docs"
      unfolding b by simp
    then show ?thesis by simp
  qed
  from a b c d show ?thesis by blast
qed

theorem retrieve_selects_first_three_witness:
  "length (filter (matches ''When was the company founded?'') kb) \<le> 3
   \<and> length (selected ''When was the company founded?'' kb) \<le> 3
   \<and> (''Our company was founded in 2020.'' \<in> set (selected ''When was the company founded?'' kb))
       = matches ''When was the company founded?'' ''Our company was founded in 2020.''
   \<and> (''Our headquarters is in San Francisco.''
          \<in> set (selected ''When was the company founded?'' kb))
       = matches ''When was the company founded?'' ''Our headquarters is in San Francisco.''"
proof -
  have "length (filter (matches ''When was the company founded?'') kb) \<le> length kb"
    by (rule length_filter_le)
  also have "length kb = 3" by (simp add: kb_def)
  finally have h: "length (filter (matches ''When was the company founded?'') kb) \<le> 3" .
  have m: "''Our company was founded in 2020.'' \<in> set kb"
    "''Our headquarters is in San Francisco.'' \<in> set kb"
    by (simp_all add: kb_def)
  from h m retrieve_selects_first_three [of "''When was the company founded?''" kb]
  show ?thesis by blast
qed

text \<open>
  C8: for the query \<open>When was the company founded?\<close> and the three sample documents,
  the retrieval step selects the document about the founding year and does not select
  the document about the headquarters.
\<close>

theorem retrieve_sample_query:
  "''Our company was founded in 2020.'' \<in> set (selected ''When was the company founded?'' kb)
   \<and> ''Our headquarters is in San Francisco.''
        \<notin> set (selected ''When was the company founded?'' kb)"
proof -
  have "selected ''When was the company founded?'' kb = [''Our company was founded in 2020.'']"
    by code_simp
  then show ?thesis by simp
qed

text \<open>
  C9: when the query is empty or consists of whitespace only, the retrieval step selects
  no document, whatever the knowledge base, and the context is the empty string.
\<close>

theorem retrieve_blank_query:
  "\<forall>c \<in> set query. is_space c \<Longrightarrow>
     split query = [] \<and> selected query docs = [] \<and> retrieve_context query docs = []"
proof -
  assume "\<forall>c \<in> set query. is_space c"
  then have s: "split query = []" by (rule split_spaces)
  then have "relevant query = (\<lambda>doc. False)"
    by (simp add: relevant_def [abs_def])
  then have "selected query docs = []"
    by (simp add: selected_def relevant_docs_def)
  with s show ?thesis by (simp add: retrieve_context_def)
qed

theorem retrieve_blank_query_witness:
  "list_all is_space [CHR '' '', CHR 0x09, CHR 0x0A]
   \<and> selected [CHR '' '', CHR 0x09, CHR 0x0A] kb = []
   \<and> retrieve_context [CHR '' '', CHR 0x09, CHR 0x0A] kb = []
   \<and> selected [] kb = [] \<and> retrieve_context [] kb = []"
proof -
  have h: "\<forall>c \<in> set [CHR '' '', CHR 0x09, CHR 0x0A]. is_space c"
    by (simp add: is_space_def)
  have e: "\<forall>c \<in> set ([] :: string). is_space c" by simp
  from h retrieve_blank_query [OF h, of kb] retrieve_blank_query [OF e, of kb]
  show ?thesis by (simp add: list_all_iff)
qed

section \<open>Properties of \<open>execute_task\<close>\<close>

lemma next_text_first: "next_text bs = first_text_bearing bs"
  unfolding first_text_bearing_def
  by (induction bs rule: next_text.induct) simp_all

lemma first_text_bearing_None:
  "first_text_bearing bs = None \<longleftrightarrow> (\<forall>b \<in> set bs. \<not> has_text b)"
  unfolding first_text_bearing_def
  by (induction bs rule: next_text.induct) simp_all

lemma first_text_bearing_Some:
  "first_text_bearing (pre @ TextBlock t # post) = Some t" if "\<forall>b \<in> set pre. \<not> has_text b"
  using that unfolding first_text_bearing_def
  by (induction pre) simp_all

lemma task_loop_issued_le:
  "length (issued (task_loop client n reqs h)) \<le> length reqs + n"
proof (induction n arbitrary: reqs h)
  case 0
  show ?case by simp
next
  case (Suc n)
  have a: "length (issued (task_loop client n (reqs @ [h]) h')) \<le> Suc (length reqs + n)" for h'
    using Suc.IH [of "reqs @ [h]" h'] by simp
  show ?case by (simp add: Let_def a)
qed

lemma task_loop_no_end_turn:
  "\<forall>k<n. stop_reason (client (length reqs + k)) \<noteq> ''end_turn'' \<Longrightarrow>
     returned (task_loop client n reqs h) = Some ''Max iterations reached''
     \<and> length (issued (task_loop client n reqs h)) = length reqs + n"
proof (induction n arbitrary: reqs h)
  case 0
  show ?case by simp
next
  case (Suc n)
  from Suc.prems have now: "stop_reason (client (length reqs)) \<noteq> ''end_turn''"
    by (metis add.right_neutral zero_less_Suc)
  have later: "\<forall>k<n. stop_reason (client (length (reqs @ [h]) + k)) \<noteq> ''end_turn''"
  proof (intro allI impI)
    fix k assume "k < n"
    then have "Suc k < Suc n" by simp
    with Suc.prems have "stop_reason (client (length reqs + Suc k)) \<noteq> ''end_turn''" by blast
    then show "stop_reason (client (length (reqs @ [h]) + k)) \<noteq> ''end_turn''" by simp
  qed
  have a: "returned (task_loop client n (reqs @ [h]) h') = Some ''Max iterations reached''
     \<and> length (issued (task_loop client n (reqs @ [h]) h')) = length reqs + Suc n" for h'
    using Suc.IH [OF later, of h'] by simp
  from now show ?case by (simp add: Let_def a)
qed

lemma task_loop_end_turn:
  "k < n \<Longrightarrow> \<forall>j<k. stop_reason (client (length reqs + j)) \<noteq> ''end_turn'' \<Longrightarrow>
   stop_reason (client (length reqs + k)) = ''end_turn'' \<Longrightarrow>
     returned (task_loop client n reqs h) = next_text (content (client (length reqs + k)))
     \<and> length (issued (task_loop client n reqs h)) = length reqs + Suc k"
proof (induction n arbitrary: reqs h k)
  case 0
  then show ?case by simp
next
  case (Suc n)
  show ?case
  proof (cases k)
    case 0
    with Suc.prems show ?thesis by (simp add: Let_def)
  next
    case (Suc k')
    with Suc.prems have now: "stop_reason (client (length reqs)) \<noteq> ''end_turn''"
      by (metis add.right_neutral zero_less_Suc)
    from Suc Suc.prems have lt: "k' < n" by simp
    have earlier: "\<forall>j<k'. stop_reason (client (length (reqs @ [h]) + j)) \<noteq> ''end_turn''"
    proof (intro allI impI)
      fix j assume "j < k'"
      with Suc have "Suc j < k" by simp
      with Suc.prems have "stop_reason (client (length reqs + Suc j)) \<noteq> ''end_turn''" by blast
      then show "stop_reason (client (length (reqs @ [h]) + j)) \<noteq> ''end_turn''" by simp
    qed
    from Suc Suc.prems
    have at: "stop_reason (client (length (reqs @ [h]) + k')) = ''end_turn''" by simp
    have a: "returned (task_loop client n (reqs @ [h]) h')
               = next_text (content (client (length reqs + k)))
     \<and> length (issued (task_loop client n (reqs @ [h]) h')) = length reqs + Suc k" for h'
      using Suc.IH [OF lt earlier at, of h'] Suc by simp
    from now show ?thesis by (simp add: Let_def a)
  qed
qed

text \<open>
  C2: for every task and every maximum iteration count, \<open>execute_task\<close> issues at most
  that many completion requests, and when none of the responses to them has the stop
  reason \<open>end_turn\<close> it returns the string \<open>Max iterations reached\<close>.
\<close>

theorem execute_task_bounded:
  "length (issued (execute_task client task max_iterations)) \<le> nat max_iterations
   \<and> ((\<forall>k < nat max_iterations. stop_reason (client k) \<noteq> ''end_turn'') \<longrightarrow>
        returned (execute_task client task max_iterations) = Some ''Max iterations reached'')"
proof -
  have "length (issued (execute_task client task max_iterations)) \<le> nat max_iterations"
    using task_loop_issued_le [of client "nat max_iterations" "[]"]
    by (simp add: execute_task_def)
  moreover have "returned (execute_task client task max_iterations)
      = Some ''Max iterations reached''"
    if "\<forall>k < nat max_iterations. stop_reason (client k) \<noteq> ''end_turn''"
    using that task_loop_no_end_turn [of "nat max_iterations" client "[]"]
    by (simp add: execute_task_def)
  ultimately show ?thesis by blast
qed

theorem execute_task_bounded_witness:
  "length (issued (execute_task busy_client ''Research'' 3)) \<le> 3
   \<and> returned (execute_task busy_client ''Research'' 3) = Some ''Max iterations reached''"
proof -
  have "\<forall>k < nat 3. stop_reason (busy_client k) \<noteq> ''end_turn''"
    by (simp add: busy_client_def)
  with execute_task_bounded [of busy_client "''Research''" 3] show ?thesis by simp
qed

text \<open>
  C7: when a response of the loop has the stop reason \<open>end_turn\<close> (the response
  number \<open>k\<close>, reached within the iteration bound after responses with other stop
  reasons), \<open>execute_task\<close> returns the text of the first content block of that response
  that carries a text field, and \<open>None\<close> when no content block of it carries one.
\<close>

theorem execute_task_end_turn:
  "k < nat max_iterations \<Longrightarrow>
   \<forall>j<k. stop_reason (client j) \<noteq> ''end_turn'' \<Longrightarrow>
   stop_reason (client k) = ''end_turn'' \<Longrightarrow>
     returned (execute_task client task max_iterations) = first_text_bearing (content (client k))"
  using task_loop_end_turn [of k "nat max_iterations" client "[]"]
  by (simp add: execute_task_def next_text_first)

theorem execute_task_end_turn_witness:
  "returned (execute_task thinking_client ''Research'' 10) = Some ''done''"
proof -
  have a: "(1::nat) < nat 10" by simp
  have b: "\<forall>j<1::nat. stop_reason (thinking_client j) \<noteq> ''end_turn''"
    by (simp add: thinking_client_def)
  have c: "stop_reason (thinking_client 1) = ''end_turn''"
    by (simp add: thinking_client_def)
  have "first_text_bearing (content (thinking_client 1)) = Some ''done''"
    by (simp add: thinking_client_def first_text_bearing_def)
  with execute_task_end_turn [OF a b c, of "''Research''"] show ?thesis by simp
qed

text \<open>
  C10: with \<open>max_iterations\<close> equal to zero, \<open>execute_task\<close> issues no completion
  request and returns the string \<open>Max iterations reached\<close>.
\<close>

theorem execute_task_zero:
  "issued (execute_task client task 0) = []
   \<and> returned (execute_task client task 0) = Some ''Max iterations reached''"
  by (simp add: execute_task_def)

section \<open>Properties of \<open>basic_agent\<close>\<close>

text \<open>
  C3 (as stated): for every user message and every prior history, \<open>basic_agent\<close> returns
  the history extended by one user record and one assistant record. This fails when the
  response has no content block: \<open>response.content[0]\<close> raises \<open>IndexError\<close> and
  nothing is returned.
\<close>

theorem basic_agent_counterexample:
  "basic_agent \<lparr>stop_reason = ''end_turn'', content = []\<rparr> ''Hello!'' None = Inl IndexError"
  by (simp add: basic_agent_def)

text \<open>
  C3 (amended): for every user message and every prior history \<open>h\<close> (the empty history
  when none is given), whenever the first content block of the response is a text block,
  \<open>basic_agent\<close> returns the text of that block and a history equal to \<open>h\<close> extended by
  exactly one user record followed by exactly one assistant record: its length is the
  length of \<open>h\<close> plus two and \<open>h\<close> is a prefix of it.
\<close>

theorem basic_agent_appends_two:
  assumes "content resp = TextBlock t # bs"
    and "h = (case conversation_history of None \<Rightarrow> [] | Some h0 \<Rightarrow> h0)"
  shows "\<exists>history'.
           basic_agent resp user_message conversation_history = Inr (t, history')
           \<and> history' = h @ [\<lparr>role = ''user'', msg_content = Text user_message\<rparr>,
                            \<lparr>role = ''assistant'', msg_content = Text t\<rparr>]
           \<and> length history' = length h + 2
           \<and> prefix h history'"
  using assms by (simp add: basic_agent_def)

theorem basic_agent_appends_two_witness:
  "basic_agent (sample_client 1) ''And in Rome?''
     (Some [\<lparr>role = ''user'', msg_content = Text ''Paris?''\<rparr>,
            \<lparr>role = ''assistant'', msg_content = Text ''Sunny.''\<rparr>])
   = Inr (''Sunny, and 345.'',
          [\<lparr>role = ''user'', msg_content = Text ''Paris?''\<rparr>,
           \<lparr>role = ''assistant'', msg_content = Text ''Sunny.''\<rparr>,
           \<lparr>role = ''user'', msg_content = Text ''And in Rome?''\<rparr>,
           \<lparr>role = ''assistant'', msg_content = Text ''Sunny, and 345.''\<rparr>])"
proof -
  have a: "content (sample_client 1) = TextBlock ''Sunny, and 345.'' # []"
    by (simp add: sample_client_def)
  show ?thesis
    using basic_agent_appends_two [OF a, where user_message = "''And in Rome?''"
        and conversation_history = "Some [\<lparr>role = ''user'', msg_content = Text ''Paris?''\<rparr>,
            \<lparr>role = ''assistant'', msg_content = Text ''Sunny.''\<rparr>]", OF refl]
    by auto
qed

section \<open>Properties of \<open>tool_using_agent\<close>\<close>

text \<open>
  The loops test \<open>block.type == "tool_use"\<close> and \<open>hasattr(block, 'text')\<close>; the
  models match on the constructor, which is the same test.
\<close>

lemma block_type_tool_use:
  "block_type b = ''tool_use'' \<longleftrightarrow> (\<exists>i tool_name tool_input. b = ToolUseBlock i tool_name tool_input)"
  by (cases b) simp_all

lemma has_text_iff: "has_text b \<longleftrightarrow> (\<exists>t. b = TextBlock t)"
  by (cases b) simp_all






lemma calculator_no_raise: "calculator py expression \<noteq> Raises e"
  by (simp add: calculator_def split: outcome.split sum.split)

lemma calculator_escapes: "calculator py expression = Escapes \<longleftrightarrow> py_eval py expression = Escapes"
  by (simp add: calculator_def split: outcome.split sum.split)

lemma call_kw_lookup:
  "set (map fst tool_input) = {param} \<Longrightarrow> \<exists>v. map_of tool_input param = Some v"
proof -
  assume "set (map fst tool_input) = {param}"
  then have "param \<in> fst ` set tool_input" by auto
  then show ?thesis by (metis map_of_eq_None_iff not_None_eq)
qed

text \<open>A tool call returns exactly when its block is well formed.\<close>

lemma call_tool_ok:
  "tool_call_ok py (ToolUseBlock i tool_name tool_input) \<longleftrightarrow>
     (\<exists>s. call_tool py tool_name tool_input = Returns s)"
proof (cases "tool_name = ''get_weather''")
  case True
  show ?thesis
  proof (cases "set (map fst tool_input) = {''location''}")
    case keys: True
    from call_kw_lookup [OF keys] obtain v where "map_of tool_input ''location'' = Some v"
      by blast
    with True keys show ?thesis
      by (auto simp: call_tool_def tool_functions_def call_kw_def get_weather_def
          split: sum.splits)
  next
    case False
    with True show ?thesis
      by (auto simp: call_tool_def tool_functions_def call_kw_def)
  qed
next
  case nw: False
  show ?thesis
  proof (cases "tool_name = ''calculator''")
    case True
    show ?thesis
    proof (cases "set (map fst tool_input) = {''expression''}")
      case keys: True
      from call_kw_lookup [OF keys] obtain v where v: "map_of tool_input ''expression'' = Some v"
        by blast
      have "(\<exists>s. calculator py v = Returns s) \<longleftrightarrow> py_eval py v \<noteq> Escapes"
        using calculator_no_raise [of py v] calculator_escapes [of py v]
        by (cases "calculator py v") auto
      with True keys v show ?thesis
        by (simp add: call_tool_def tool_functions_def call_kw_def)
    next
      case False
      with True show ?thesis
        by (auto simp: call_tool_def tool_functions_def call_kw_def)
    qed
  next
    case False
    with nw show ?thesis by (simp add: call_tool_def tool_functions_def)
  qed
qed

lemma run_tools_ids:
  "run_tools py bs acc = Returns r \<Longrightarrow>
     \<exists>trs. r = acc @ trs \<and> map tool_use_id trs = tool_use_ids bs
           \<and> list_all (\<lambda>tr. tr_type tr = ''tool_result'') trs"
proof (induction py bs acc rule: run_tools.induct)
  case (2 py i tool_name tool_input bs tool_results)
  from "2.prems" obtain result where
    c: "call_tool py tool_name tool_input = Returns result"
    and r: "run_tools py bs (tool_results
       @ [\<lparr>tr_type = ''tool_result'', tool_use_id = i, tr_content = result\<rparr>]) = Returns r"
    by (auto split: outcome.splits)
  from "2.IH" [OF c r] obtain trs where
    "r = (tool_results @ [\<lparr>tr_type = ''tool_result'', tool_use_id = i, tr_content = result\<rparr>]) @ trs"
    "map tool_use_id trs = tool_use_ids bs" "list_all (\<lambda>tr. tr_type tr = ''tool_result'') trs"
    by blast
  then have "r = tool_results @ (\<lparr>tr_type = ''tool_result'', tool_use_id = i, tr_content = result\<rparr> # trs)
     \<and> map tool_use_id (\<lparr>tr_type = ''tool_result'', tool_use_id = i, tr_content = result\<rparr> # trs)
          = tool_use_ids (ToolUseBlock i tool_name tool_input # bs)
     \<and> list_all (\<lambda>tr. tr_type tr = ''tool_result'')
          (\<lparr>tr_type = ''tool_result'', tool_use_id = i, tr_content = result\<rparr> # trs)"
    by simp
  then show ?case by blast
qed simp_all

lemma run_tools_ok:
  "list_all (tool_call_ok py) bs \<Longrightarrow> \<exists>r. run_tools py bs acc = Returns r"
proof (induction py bs acc rule: run_tools.induct)
  case (2 py i tool_name tool_input bs tool_results)
  from "2.prems" have "tool_call_ok py (ToolUseBlock i tool_name tool_input)" by simp
  from call_tool_ok [THEN iffD1, OF this] obtain s where c: "call_tool py tool_name tool_input = Returns s"
    by blast
  from "2.prems" have "list_all (tool_call_ok py) bs" by simp
  from "2.IH" [OF c this] c show ?case by simp
qed simp_all

lemma tool_loop_diverges:
  assumes "\<forall>k. stop_reason (client k) = ''tool_use'' \<and> well_formed py (client k)"
  shows "tool_loop py client reqs msgs = None"
proof (rule ccontr)
  assume "tool_loop py client reqs msgs \<noteq> None"
  then obtain y where major: "tool_loop py client reqs msgs = Some y" by auto
  have "(\<forall>k. stop_reason (client k) = ''tool_use'' \<and> well_formed py (client k)) \<longrightarrow> False"
  proof (rule tool_loop.raw_induct
      [where P = "\<lambda>py client reqs msgs y.
          (\<forall>k. stop_reason (client k) = ''tool_use'' \<and> well_formed py (client k)) \<longrightarrow> False",
        OF _ major])
    fix loop :: "interpreter \<Rightarrow> client \<Rightarrow> message list list \<Rightarrow> message list
        \<Rightarrow> (string outcome \<times> message list list) option"
      and py client reqs msgs y
    assume IH: "\<And>py client reqs msgs y. loop py client reqs msgs = Some y \<Longrightarrow>
        (\<forall>k. stop_reason (client k) = ''tool_use'' \<and> well_formed py (client k)) \<longrightarrow> False"
    assume body: "(let resp = client (length reqs); requests1 = reqs @ [msgs]
      in if stop_reason resp = ''tool_use''
         then (case run_tools py (content resp) [] of
                 Raises e \<Rightarrow> Some (Raises e, requests1)
               | Escapes \<Rightarrow> Some (Escapes, requests1)
               | Returns tool_results \<Rightarrow>
                   loop py client requests1
                     (msgs
                      @ [\<lparr>role = ''assistant'', msg_content = Blocks (content resp)\<rparr>,
                         \<lparr>role = ''user'', msg_content = ToolResults tool_results\<rparr>]))
         else Some (outcome_of (content0_text (content resp)), requests1)) = Some y"
    show "(\<forall>k. stop_reason (client k) = ''tool_use'' \<and> well_formed py (client k)) \<longrightarrow> False"
    proof
      assume all: "\<forall>k. stop_reason (client k) = ''tool_use'' \<and> well_formed py (client k)"
      then have s: "stop_reason (client (length reqs)) = ''tool_use''" by blast
      from all have "list_all (tool_call_ok py) (content (client (length reqs)))"
        by (simp add: well_formed_def)
      from run_tools_ok [OF this] obtain r where
        r: "run_tools py (content (client (length reqs))) [] = Returns r" by blast
      from body s r have "loop py client (reqs @ [msgs])
          (msgs @ [\<lparr>role = ''assistant'', msg_content = Blocks (content (client (length reqs)))\<rparr>,
                   \<lparr>role = ''user'', msg_content = ToolResults r\<rparr>]) = Some y"
        by (simp add: Let_def)
      from IH [OF this] all show False by blast
    qed
  qed
  with assms show False by blast
qed


lemma tool_loop_run:
  assumes "\<forall>k<n. stop_reason (client (length reqs + k)) = ''tool_use''
                \<and> well_formed py (client (length reqs + k))"
    and "stop_reason (client (length reqs + n)) \<noteq> ''tool_use''"
  shows "\<exists>log. tool_loop py client reqs msgs
               = Some (outcome_of (content0_text (content (client (length reqs + n)))), reqs @ log)
           \<and> length log = Suc n \<and> log ! 0 = msgs
           \<and> (\<forall>k<n. \<exists>trs.
                 log ! Suc k
                   = log ! k
                     @ [\<lparr>role = ''assistant'',
                         msg_content = Blocks (content (client (length reqs + k)))\<rparr>,
                        \<lparr>role = ''user'', msg_content = ToolResults trs\<rparr>]
                 \<and> map tool_use_id trs = tool_use_ids (content (client (length reqs + k)))
                 \<and> list_all (\<lambda>tr. tr_type tr = ''tool_result'') trs)"
  using assms
proof (induction n arbitrary: reqs msgs)
  case 0
  then have "tool_loop py client reqs msgs
      = Some (outcome_of (content0_text (content (client (length reqs + 0)))), reqs @ [msgs])"
    by (subst tool_loop.simps) (simp add: Let_def)
  then show ?case by auto
next
  case (Suc n)
  let ?resp = "client (length reqs)"
  from Suc.prems(1) have now: "stop_reason ?resp = ''tool_use''" "well_formed py ?resp"
    by (metis add.right_neutral zero_less_Suc)+
  from now(2) have "list_all (tool_call_ok py) (content ?resp)" by (simp add: well_formed_def)
  from run_tools_ok [OF this] obtain r where r: "run_tools py (content ?resp) [] = Returns r"
    by blast
  from run_tools_ids [OF r] have ids: "map tool_use_id r = tool_use_ids (content ?resp)"
    "list_all (\<lambda>tr. tr_type tr = ''tool_result'') r" by auto
  let ?msgs1 = "msgs @ [\<lparr>role = ''assistant'', msg_content = Blocks (content ?resp)\<rparr>,
                       \<lparr>role = ''user'', msg_content = ToolResults r\<rparr>]"
  have step: "tool_loop py client reqs msgs = tool_loop py client (reqs @ [msgs]) ?msgs1"
    using now(1) r by (subst tool_loop.simps) (simp add: Let_def)
  have later: "\<forall>k<n. stop_reason (client (length (reqs @ [msgs]) + k)) = ''tool_use''
                \<and> well_formed py (client (length (reqs @ [msgs]) + k))"
  proof (intro allI impI)
    fix k assume "k < n"
    then have "Suc k < Suc n" by simp
    with Suc.prems(1) have "stop_reason (client (length reqs + Suc k)) = ''tool_use''
                \<and> well_formed py (client (length reqs + Suc k))" by blast
    then show "stop_reason (client (length (reqs @ [msgs]) + k)) = ''tool_use''
                \<and> well_formed py (client (length (reqs @ [msgs]) + k))" by simp
  qed
  from Suc.prems(2) have last: "stop_reason (client (length (reqs @ [msgs]) + n)) \<noteq> ''tool_use''"
    by simp
  from Suc.IH [OF later last, of ?msgs1] obtain log where
    run: "tool_loop py client (reqs @ [msgs]) ?msgs1
            = Some (outcome_of (content0_text (content (client (length (reqs @ [msgs]) + n)))),
                    (reqs @ [msgs]) @ log)"
    and len: "length log = Suc n" and first: "log ! 0 = ?msgs1"
    and steps: "\<forall>k<n. \<exists>trs.
                 log ! Suc k
                   = log ! k
                     @ [\<lparr>role = ''assistant'',
                         msg_content = Blocks (content (client (length (reqs @ [msgs]) + k)))\<rparr>,
                        \<lparr>role = ''user'', msg_content = ToolResults trs\<rparr>]
                 \<and> map tool_use_id trs
                     = tool_use_ids (content (client (length (reqs @ [msgs]) + k)))
                 \<and> list_all (\<lambda>tr. tr_type tr = ''tool_result'') trs"
    by blast
  let ?log = "msgs # log"
  have a: "tool_loop py client reqs msgs
             = Some (outcome_of (content0_text (content (client (length reqs + Suc n)))),
                     reqs @ ?log)"
    using step run by simp
  have b: "length ?log = Suc (Suc n)" "?log ! 0 = msgs" using len by simp_all
  have c: "\<exists>trs. ?log ! Suc k
                   = ?log ! k
                     @ [\<lparr>role = ''assistant'',
                         msg_content = Blocks (content (client (length reqs + k)))\<rparr>,
                        \<lparr>role = ''user'', msg_content = ToolResults trs\<rparr>]
                 \<and> map tool_use_id trs = tool_use_ids (content (client (length reqs + k)))
                 \<and> list_all (\<lambda>tr. tr_type tr = ''tool_result'') trs"
    if "k < Suc n" for k
  proof (cases k)
    case 0
    with first ids show ?thesis by auto
  next
    case (Suc j)
    with that have "j < n" by simp
    with steps obtain trs where
      "log ! Suc j
         = log ! j
           @ [\<lparr>role = ''assistant'',
               msg_content = Blocks (content (client (length (reqs @ [msgs]) + j)))\<rparr>,
              \<lparr>role = ''user'', msg_content = ToolResults trs\<rparr>]"
      "map tool_use_id trs = tool_use_ids (content (client (length (reqs @ [msgs]) + j)))"
      "list_all (\<lambda>tr. tr_type tr = ''tool_result'') trs"
      by blast
    with Suc show ?thesis by auto
  qed
  from a b c show ?case by blast
qed

lemma sample_well_formed: "well_formed sample_interpreter (sample_client 0)"
  by (simp add: sample_client_def well_formed_def sample_interpreter_def py_eval_def)

text \<open>
  C4 (as stated): for every sequence of responses, the loop goes on while the stop reason
  is tool-use, appends one tool result per tool-use block, and returns the text of the
  first content block otherwise. This fails on a tool-use block that names a tool
  outside \<open>tool_functions\<close>: the lookup raises \<open>KeyError\<close>, so the loop ends after
  one request and no tool result is appended. It also fails on a final response with no
  content block, where \<open>response.content[0]\<close> raises \<open>IndexError\<close>.
\<close>

theorem tool_dispatch_counterexample:
  "stop_reason (rogue_client 0) = ''tool_use''
   \<and> tool_using_agent sample_interpreter rogue_client = Some (Raises KeyError, [initial_messages])
   \<and> stop_reason (empty_client 0) \<noteq> ''tool_use''
   \<and> tool_using_agent sample_interpreter empty_client = Some (Raises IndexError, [initial_messages])"
proof -
  have "call_tool sample_interpreter ''search_web'' [(''query'', PStr ''weather'')] = Raises KeyError"
    by (simp add: call_tool_def tool_functions_def)
  then have "tool_using_agent sample_interpreter rogue_client
      = Some (Raises KeyError, [initial_messages])"
    unfolding tool_using_agent_def
    by (subst tool_loop.simps) (simp add: rogue_client_def)
  moreover have "tool_using_agent sample_interpreter empty_client
      = Some (Raises IndexError, [initial_messages])"
    unfolding tool_using_agent_def
    by (subst tool_loop.simps) (simp add: empty_client_def)
  ultimately show ?thesis by (simp add: rogue_client_def empty_client_def)
qed

text \<open>
  C4 (amended): take a sequence of responses of which the first \<open>n\<close> have the stop
  reason tool-use and only tool-use blocks whose tool call returns: the block names
  \<open>get_weather\<close> or \<open>calculator\<close> and passes exactly the argument of that tool, the
  location converts to a string, and the evaluation of the expression returns a value
  or raises an exception without any other effect (an expression that rebinds \<open>client\<close>,
  does not return or ends the process is excluded). Let the next response have another
  stop reason. Then the loop issues exactly \<open>n + 1\<close> requests. The first request
  carries the initial messages; after each of the \<open>n\<close> tool-use responses the
  next request carries the previous messages, the assistant turn with the content of
  the response, and a user turn with exactly one tool-result record per tool-use block of
  that response, in the order of the blocks and each with the identifier of its block as
  \<open>tool_use_id\<close>. The loop then yields \<open>response.content[0].text\<close> of the last response:
  the text of its first content block when that is a text block, an exception otherwise.
\<close>

theorem tool_dispatch_run:
  assumes "\<forall>k<n. stop_reason (client k) = ''tool_use'' \<and> well_formed py (client k)"
    and "stop_reason (client n) \<noteq> ''tool_use''"
  shows "\<exists>log. tool_using_agent py client
               = Some (outcome_of (content0_text (content (client n))), log)
           \<and> length log = Suc n \<and> log ! 0 = initial_messages
           \<and> (\<forall>k<n. \<exists>trs.
                 log ! Suc k
                   = log ! k
                     @ [\<lparr>role = ''assistant'', msg_content = Blocks (content (client k))\<rparr>,
                        \<lparr>role = ''user'', msg_content = ToolResults trs\<rparr>]
                 \<and> map tool_use_id trs = tool_use_ids (content (client k))
                 \<and> list_all (\<lambda>tr. tr_type tr = ''tool_result'') trs)"
  using tool_loop_run [where n = n and client = client and reqs = "[]" and py = py
      and msgs = initial_messages] assms
  by (simp add: tool_using_agent_def)

theorem tool_dispatch_run_witness:
  "\<exists>log. tool_using_agent sample_interpreter sample_client = Some (Returns ''Sunny, and 345.'', log)
         \<and> length log = 2"
proof -
  have a: "\<forall>k<1. stop_reason (sample_client k) = ''tool_use'' \<and> well_formed sample_interpreter (sample_client k)"
    using sample_well_formed by (simp add: sample_client_def)
  have b: "stop_reason (sample_client 1) \<noteq> ''tool_use''"
    by (simp add: sample_client_def)
  have c: "content0_text (content (sample_client 1)) = Inr ''Sunny, and 345.''"
    by (simp add: sample_client_def)
  from tool_dispatch_run [OF a b] c show ?thesis
    by auto
qed

text \<open>
  C6: the loop of \<open>tool_using_agent\<close> has no bound on its iterations: there is an infinite
  sequence of responses, all with the stop reason tool-use, on which it never ends.
\<close>

theorem tool_dispatch_unbounded:
  "\<exists>client. (\<forall>k. stop_reason (client k) = ''tool_use'') \<and> tool_using_agent py client = None"
proof -
  have "\<forall>k. stop_reason (idle_client k) = ''tool_use'' \<and> well_formed py (idle_client k)"
    by (simp add: idle_client_def well_formed_def)
  then have "tool_using_agent py idle_client = None"
    unfolding tool_using_agent_def by (rule tool_loop_diverges)
  moreover have "\<forall>k. stop_reason (idle_client k) = ''tool_use''"
    by (simp add: idle_client_def)
  ultimately show ?thesis by blast
qed

section \<open>Properties of \<open>calculator\<close>\<close>




end
